theory Spec2Isabelle
  imports Complex_Main "HOL-Library.Char_ord" "HOL-Library.List_Lexorder"
    "HOL-Library.Multiset"
begin

section \<open>Python values and exceptions\<close>

text \<open>
  The exceptions that the modelled code of \<^verbatim>\<open>gentiles.py\<close> can raise. Numbers are
  Python numbers with exact arithmetic: an \<^verbatim>\<open>int\<close> is an \<^typ>\<open>int\<close>, and a value
  that the program divides or samples is a \<^typ>\<open>real\<close> (the rounding of IEEE-754
  doubles is not part of the model).
\<close>

datatype py_error =
    IndexError
  | ZeroDivisionError
  | ValueError
  | Psycopg2Error
  | HTTPNotFound
  | HTTPServiceUnavailable
  | HTTPInternalServerError

text \<open>\<^verbatim>\<open>math.trunc\<close>: rounding towards zero.\<close>

definition trunc :: "real \<Rightarrow> int" where
  "trunc r = (if 0 \<le> r then \<lfloor>r\<rfloor> else \<lceil>r\<rceil>)"

text \<open>
  A Python \<^verbatim>\<open>float\<close> is an IEEE-754 double, and each of \<^verbatim>\<open>+\<close>, \<^verbatim>\<open>-\<close>,
  \<^verbatim>\<open>*\<close> and \<^verbatim>\<open>/\<close> on floats returns the exact result rounded to the nearest
  double, a tie going to the even significand. \<open>float64\<close> is that rounding for a
  result in the normal range, where a double has a significand of 53 bits: the exponent
  \<open>e\<close> is the weight of the last of them. A real number \<open>r\<close> is a double when
  \<open>float64 r = r\<close>. Results below \<open>2 powi (- 1022)\<close> in magnitude or beyond the
  largest double are outside this model; no computation below comes near them.
\<close>

definition round_half_even :: "real \<Rightarrow> int" where
  "round_half_even q =
     (let f = \<lfloor>q\<rfloor>; d = q - of_int f
      in if d < 1/2 then f else if 1/2 < d then f + 1 else if even f then f else f + 1)"

definition float64 :: "real \<Rightarrow> real" where
  "float64 r =
     (if r = 0 then 0
      else let e = \<lfloor>log 2 \<bar>r\<bar>\<rfloor> - 52
           in of_int (round_half_even (r / 2 powi e)) * 2 powi e)"

text \<open>
  \<^verbatim>\<open>xs[i] += 1\<close> on a Python list: a negative index counts from the end, an index
  outside \<^verbatim>\<open>-len(xs) .. len(xs)-1\<close> raises \<^verbatim>\<open>IndexError\<close>.
\<close>

definition list_inc :: "int list \<Rightarrow> int \<Rightarrow> py_error + int list" where
  "list_inc xs i =
     (let n = int (length xs); j = (if i < 0 then i + n else i)
      in if 0 \<le> j \<and> j < n then Inr (xs[nat j := xs ! nat j + 1]) else Inl IndexError)"

section \<open>Metrics: \<^verbatim>\<open>StatCounter\<close> and \<^verbatim>\<open>StatHistogram\<close>\<close>

record StatCounter =
  c_name :: string
  c_help :: string
  c_value :: int

definition StatCounter_init :: "string \<Rightarrow> string \<Rightarrow> StatCounter" where
  "StatCounter_init name help = \<lparr>c_name = name, c_help = help, c_value = 0\<rparr>"

definition inc :: "StatCounter \<Rightarrow> StatCounter" where
  "inc c = c\<lparr>c_value := c_value c + 1\<rparr>"

record StatHistogram =
  h_name :: string
  h_help :: string
  h_sum :: real
  interval :: real
  buckets :: "int list"
  h_count :: int
  bucket_count :: int
  max_value :: real

definition StatHistogram_init :: "string \<Rightarrow> string \<Rightarrow> real \<Rightarrow> int \<Rightarrow> StatHistogram" where
  "StatHistogram_init name help ival bc =
     \<lparr>h_name = name, h_help = help, h_sum = 0, interval = ival,
      buckets = replicate (nat bc) 0, h_count = 0, bucket_count = bc,
      max_value = of_int bc * ival\<rparr>"

text \<open>
  \<^verbatim>\<open>StatHistogram.sample\<close>. The method mutates the object step by step, so the
  result is the histogram as the call leaves it, together with the exception the call
  raised, if any: \<^verbatim>\<open>count\<close> and \<^verbatim>\<open>sum\<close> are already updated when the
  division or the list update raises.
\<close>

definition sample :: "real \<Rightarrow> StatHistogram \<Rightarrow> StatHistogram \<times> py_error option" where
  "sample v h =
     (let h1 = h\<lparr>h_count := h_count h + 1\<rparr>;
          h2 = h1\<lparr>h_sum := h_sum h1 + v\<rparr>
      in if v \<le> max_value h2 then
           (if interval h2 = 0 then (h2, Some ZeroDivisionError)
            else
              let index = trunc (v / interval h2);
                  index = (if of_int index * interval h2 = v then index - 1 else index)
              in (case list_inc (buckets h2) index of
                    Inl e \<Rightarrow> (h2, Some e)
                  | Inr bs \<Rightarrow> (h2\<lparr>buckets := bs\<rparr>, None)))
         else (h2, None))"

text \<open>
  The two lines of \<^verbatim>\<open>sample\<close> that choose the bucket, in double arithmetic:
  \<^verbatim>\<open>index = math.trunc(value / self.interval)\<close> and
  \<^verbatim>\<open>if index * self.interval == value: index -= 1\<close>, with one rounding for the
  division and one for the product. The sample and the bucket width are doubles.
\<close>

definition index_float64 :: "real \<Rightarrow> real \<Rightarrow> int" where
  "index_float64 v ival =
     (let index = trunc (float64 (v / ival));
          index = (if float64 (of_int index * ival) = v then index - 1 else index)
      in index)"

text \<open>
  The shape \<^verbatim>\<open>__init__\<close> establishes and \<^verbatim>\<open>sample\<close> keeps: one list cell per
  bucket, and \<^verbatim>\<open>max_value\<close> the upper edge of the last bucket.
\<close>

definition hist_shape :: "StatHistogram \<Rightarrow> bool" where
  "hist_shape h \<longleftrightarrow>
     int (length (buckets h)) = bucket_count h \<and>
     max_value h = of_int (bucket_count h) * interval h"

text \<open>
  A histogram on which \<^verbatim>\<open>sample\<close> of a non-negative value cannot raise: it has the
  shape above, a positive bucket width and at least one bucket, as the two histograms of
  the module have.
\<close>

definition hist_ok :: "StatHistogram \<Rightarrow> bool" where
  "hist_ok h \<longleftrightarrow> hist_shape h \<and> 0 < interval h \<and> 0 < bucket_count h"

section \<open>The tile encoder: \<^verbatim>\<open>json.dumps(obj, sort_keys=True)\<close>\<close>

text \<open>
  The values a result row can hold and \<^verbatim>\<open>json.dumps\<close> can serialise: \<^verbatim>\<open>None\<close>,
  booleans, integers, strings, lists and dictionaries with string keys (a JSON column
  arrives as such a dictionary). A dictionary is the list of its items in insertion
  order; its keys are distinct. Strings are sequences of code points below 256.
  Floating-point values are not modelled.
\<close>

datatype json =
    JNull
  | JBool bool
  | JInt int
  | JStr string
  | JList "json list"
  | JDict "(string \<times> json) list"

text \<open>\<^verbatim>\<open>str\<close> of an integer: its decimal digits, with a sign when negative.\<close>

definition digit_char :: "nat \<Rightarrow> char" where
  "digit_char d = char_of (of_char (CHR ''0'') + d)"

fun str_nat :: "nat \<Rightarrow> string" where
  "str_nat n = (if n < 10 then [digit_char n] else str_nat (n div 10) @ [digit_char (n mod 10)])"

definition str_int :: "int \<Rightarrow> string" where
  "str_int i = (if i < 0 then CHR ''-'' # str_nat (nat (- i)) else str_nat (nat i))"

text \<open>
  \<^verbatim>\<open>py_encode_basestring_ascii\<close>: the string between double quotes, where the
  backslash (0x5C) and the double quote (0x22) are escaped with a backslash, the
  characters from space to tilde stand for themselves, backspace, form feed, newline,
  carriage return and tab have their letter escapes, and every other code point is
  written with \<^verbatim>\<open>\u\<close> and four lower-case hexadecimal digits.
\<close>

definition hex_char :: "nat \<Rightarrow> char" where
  "hex_char d =
     (if d < 10 then char_of (of_char (CHR ''0'') + d)
      else char_of (of_char (CHR ''a'') + (d - 10)))"

definition escape_char :: "char \<Rightarrow> string" where
  "escape_char c =
     (if c = CHR 0x5C then [CHR 0x5C, CHR 0x5C]
      else if c = CHR 0x22 then [CHR 0x5C, CHR 0x22]
      else if CHR 0x20 \<le> c \<and> c \<le> CHR 0x7E then [c]
      else if c = CHR 0x08 then [CHR 0x5C, CHR ''b'']
      else if c = CHR 0x0C then [CHR 0x5C, CHR ''f'']
      else if c = CHR 0x0A then [CHR 0x5C, CHR ''n'']
      else if c = CHR 0x0D then [CHR 0x5C, CHR ''r'']
      else if c = CHR 0x09 then [CHR 0x5C, CHR ''t'']
      else [CHR 0x5C, CHR ''u'', CHR ''0'', CHR ''0'',
            hex_char (of_char c div 16), hex_char (of_char c mod 16)])"

definition encode_str :: "string \<Rightarrow> string" where
  "encode_str s = CHR 0x22 # concat (map escape_char s) @ [CHR 0x22]"

text \<open>\<^verbatim>\<open>sep.join(parts)\<close>.\<close>

fun join :: "string \<Rightarrow> string list \<Rightarrow> string" where
  "join sep [] = []"
| "join sep [s] = s"
| "join sep (s # t # ss) = s @ sep @ join sep (t # ss)"

text \<open>
  \<^verbatim>\<open>json.dumps(o, sort_keys=True)\<close> with the default separators \<^verbatim>\<open>', '\<close> and
  \<^verbatim>\<open>': '\<close>: the items of every dictionary, at every depth, are sorted by key
  (strings compare code point by code point, a proper prefix first) before they are
  written.
\<close>

fun dumps :: "json \<Rightarrow> string" where
  "dumps JNull = ''null''"
| "dumps (JBool b) = (if b then ''true'' else ''false'')"
| "dumps (JInt i) = str_int i"
| "dumps (JStr s) = encode_str s"
| "dumps (JList xs) = ''['' @ join '', '' (map dumps xs) @ '']''"
| "dumps (JDict kvs) =
     ''{'' @ join '', ''
        (map (\<lambda>(k, v). encode_str k @ '': '' @ dumps v) (sort_key fst kvs)) @ ''}''"

text \<open>
  A result row is a named tuple: its field names with their values, in column order.
  \<^verbatim>\<open>_asdict()\<close> is the dictionary of these items.
\<close>

type_synonym row = "(string \<times> json) list"

definition asdict :: "row \<Rightarrow> json" where
  "asdict r = JDict r"

text \<open>
  The encoding step of \<^verbatim>\<open>gentile_async\<close> (the lines from \<^verbatim>\<open>obj = {}\<close> to
  \<^verbatim>\<open>tile = json.dumps(obj, sort_keys=True)\<close>): the fetched rows become the
  \<^verbatim>\<open>features\<close> of a \<^verbatim>\<open>FeatureCollection\<close>.
\<close>

definition encode :: "row list \<Rightarrow> string" where
  "encode rows =
     dumps (JDict [(''type'', JStr ''FeatureCollection''),
                   (''features'', JList (map asdict rows))])"

section \<open>The request handlers\<close>

text \<open>
  What the database does during one request: whether the pool hands out a connection,
  whether the connection opens a cursor, whether each of the two \<^verbatim>\<open>execute\<close>
  calls succeeds, what \<^verbatim>\<open>fetchall\<close> returns (\<open>None\<close> when it raises), and the
  time \<^verbatim>\<open>perf_counter\<close> measures around the query. A failure of the database is a
  \<^verbatim>\<open>psycopg2.Error\<close>.
\<close>

record db =
  acquire_fails :: bool
  cursor_fails :: bool
  timeout_set_fails :: bool
  tile_query_fails :: bool
  fetchall :: "row list option"
  query_seconds :: real

text \<open>The statements a cursor is asked to execute, with the bound parameters.\<close>

datatype statement = TimeoutSet | TileQuery int int int

text \<open>
  The module-level metrics, and the statements executed so far. The route
  \<^verbatim>\<open>/{zoom:\d+}/{x:\d+}/{y:\d+}.json\<close> admits digit strings only, so a request is its
  \<^verbatim>\<open>match_info\<close>: the three natural numbers \<^verbatim>\<open>int\<close> reads from them.
\<close>

record state =
  tilesrv_metrics_scraped :: StatCounter
  tilesrv_aliveprobe :: StatCounter
  tilesrv_start :: StatCounter
  tile_served :: StatCounter
  tile_exception :: StatCounter
  tile_queryfail :: StatCounter
  tile_querytime :: StatHistogram
  tile_size :: StatHistogram
  executed :: "statement list"

definition init_state :: state where
  "init_state =
     \<lparr>tilesrv_metrics_scraped = StatCounter_init ''tilesrv_metrics_scraped'' ''count of times scraped'',
      tilesrv_aliveprobe = StatCounter_init ''tilesrv_aliveprobe_count'' ''count of times probe for aliveness'',
      tilesrv_start = StatCounter_init ''tilesrv_start_count'' ''count of times tile server started'',
      tile_served = StatCounter_init ''tile_served_count'' ''count of tiles served'',
      tile_exception = StatCounter_init ''tile_exception_count''
        ''count of tiles requests that ended in exception'',
      tile_queryfail = StatCounter_init ''tile_queryfail_count''
        ''count of tiles requests that experienced query failure'',
      tile_querytime = StatHistogram_init ''tile_querytime_seconds''
        ''histogram of tile query performance'' (1/5) 20,
      tile_size = StatHistogram_init ''tile_size'' ''histogram of tile size'' (1024 * 8) 32,
      executed = []\<rparr>"

record request =
  mi_zoom :: nat
  mi_x :: nat
  mi_y :: nat

record response =
  status :: nat
  r_text :: string
  content_type :: string

definition zoom_default :: int where
  "zoom_default = 16"

text \<open>
  \<^verbatim>\<open>gentile_async\<close>. The result is what the coroutine returns (a string, or Python's
  \<^verbatim>\<open>None\<close>) or the exception it raises, with the state it leaves. The handler
  \<^verbatim>\<open>except psycopg2.Error\<close> prints the error and raises it again; any other
  exception passes through it.
\<close>

definition gentile_async ::
  "db \<Rightarrow> nat \<Rightarrow> nat \<Rightarrow> nat \<Rightarrow> bool \<Rightarrow> state \<Rightarrow> (py_error + string option) \<times> state" where
  "gentile_async cursor zm tx ty gather_metrics s =
     (let s1 = s\<lparr>executed := executed s @ [TimeoutSet]\<rparr> in
      if timeout_set_fails cursor then (Inl Psycopg2Error, s1)
      else
        let s2 = s1\<lparr>executed := executed s1 @ [TileQuery (int zm) (int tx) (int ty)]\<rparr> in
        if tile_query_fails cursor then (Inl Psycopg2Error, s2)
        else
          (case fetchall cursor of
             None \<Rightarrow> (Inl Psycopg2Error, s2)
           | Some rows \<Rightarrow>
               (case (if gather_metrics then sample (query_seconds cursor) (tile_querytime s2)
                      else (tile_querytime s2, None)) of
                  (h, Some e) \<Rightarrow> (Inl e, s2\<lparr>tile_querytime := h\<rparr>)
                | (h, None) \<Rightarrow>
                    let s3 = s2\<lparr>tile_querytime := h\<rparr>;
                        tile = encode rows
                    in (case (if gather_metrics then sample (real (length tile)) (tile_size s3)
                              else (tile_size s3, None)) of
                          (h', Some e) \<Rightarrow> (Inl e, s3\<lparr>tile_size := h'\<rparr>)
                        | (h', None) \<Rightarrow> (Inr (Some tile), s3\<lparr>tile_size := h'\<rparr>)))))"

text \<open>\<^verbatim>\<open>tile_handler_on_conn\<close>: the cursor is opened before the zoom is checked.\<close>

definition tile_handler_on_conn :: "db \<Rightarrow> request \<Rightarrow> state \<Rightarrow> (py_error + response) \<times> state" where
  "tile_handler_on_conn conn req s =
     (if cursor_fails conn then (Inl Psycopg2Error, s)
      else if int (mi_zoom req) \<noteq> zoom_default then (Inl HTTPNotFound, s)
      else
        (case gentile_async conn (mi_zoom req) (mi_x req) (mi_y req) True s of
           (Inl e, s') \<Rightarrow> (Inl e, s')
         | (Inr None, s') \<Rightarrow>
             (Inl HTTPServiceUnavailable, s'\<lparr>tile_queryfail := inc (tile_queryfail s')\<rparr>)
         | (Inr (Some tile_data), s') \<Rightarrow>
             (Inr \<lparr>status = 200, r_text = tile_data, content_type = ''application/json''\<rparr>,
              s'\<lparr>tile_served := inc (tile_served s')\<rparr>)))"

text \<open>
  \<^verbatim>\<open>tile_handler_pooling\<close>: \<^verbatim>\<open>except Exception\<close> counts whatever is raised inside
  the \<^verbatim>\<open>try\<close>, the HTTP exceptions of \<^verbatim>\<open>aiohttp\<close> included, and raises it again.
\<close>

definition tile_handler_pooling :: "db \<Rightarrow> request \<Rightarrow> state \<Rightarrow> (py_error + response) \<times> state" where
  "tile_handler_pooling pool req s =
     (case (if acquire_fails pool then (Inl Psycopg2Error, s)
            else tile_handler_on_conn pool req s) of
        (Inl e, s') \<Rightarrow> (Inl e, s'\<lparr>tile_exception := inc (tile_exception s')\<rparr>)
      | (Inr resp, s') \<Rightarrow> (Inr resp, s'))"

definition is_HTTPException :: "py_error \<Rightarrow> bool" where
  "is_HTTPException e \<longleftrightarrow> e = HTTPNotFound \<or> e = HTTPServiceUnavailable \<or> e = HTTPInternalServerError"

definition error_middleware ::
  "(request \<Rightarrow> state \<Rightarrow> (py_error + response) \<times> state) \<Rightarrow>
   request \<Rightarrow> state \<Rightarrow> (py_error + response) \<times> state" where
  "error_middleware handler req s =
     (case handler req s of
        (Inr resp, s') \<Rightarrow> (Inr resp, s')
      | (Inl ex, s') \<Rightarrow>
          if is_HTTPException ex then (Inl ex, s') else (Inl HTTPInternalServerError, s'))"

text \<open>
  The route \<^verbatim>\<open>GET /{zoom}/{x}/{y}.json\<close> as \<^verbatim>\<open>app_factory\<close> and \<^verbatim>\<open>main\<close> set
  it up: \<^verbatim>\<open>tile_handler_pooling\<close> behind \<^verbatim>\<open>error_middleware\<close>. The status the
  client sees is the status of the response, or the status code of the HTTP exception.
\<close>

definition get_tile :: "db \<Rightarrow> request \<Rightarrow> state \<Rightarrow> (py_error + response) \<times> state" where
  "get_tile pool req s = error_middleware (tile_handler_pooling pool) req s"

fun http_status :: "py_error + response \<Rightarrow> nat" where
  "http_status (Inr resp) = status resp"
| "http_status (Inl HTTPNotFound) = 404"
| "http_status (Inl HTTPServiceUnavailable) = 503"
| "http_status (Inl e) = 500"

section \<open>Coordinate math\<close>

text \<open>
  \<^verbatim>\<open>osm_deg2num\<close> over the real numbers. \<^verbatim>\<open>1 / math.cos(lat_rad)\<close> raises
  \<^verbatim>\<open>ZeroDivisionError\<close> when the cosine is zero, \<^verbatim>\<open>math.log\<close> raises
  \<^verbatim>\<open>ValueError\<close> when its argument is not positive, and \<^verbatim>\<open>int\<close> truncates
  towards zero.
\<close>

definition radians :: "real \<Rightarrow> real" where
  "radians d = d * pi / 180"

definition osm_deg2num :: "real \<Rightarrow> real \<Rightarrow> int \<Rightarrow> py_error + (int \<times> int)" where
  "osm_deg2num lat_deg lon_deg zm =
     (let lat_rad = radians lat_deg;
          n = 2 powi zm;
          xtile = trunc ((lon_deg + 180) / 360 * n)
      in if cos lat_rad = 0 then Inl ZeroDivisionError
         else if tan lat_rad + 1 / cos lat_rad \<le> 0 then Inl ValueError
         else Inr (xtile, trunc ((1 - ln (tan lat_rad + 1 / cos lat_rad) / pi) / 2 * n)))"

definition tile_bbox_from_coords ::
  "int \<Rightarrow> real \<times> real \<times> real \<times> real \<Rightarrow> py_error + (int \<times> int \<times> int \<times> int)" where
  "tile_bbox_from_coords zm coord_bbox =
     (case coord_bbox of (c0, c1, c2, c3) \<Rightarrow>
        (case osm_deg2num c0 c1 zm of
           Inl e \<Rightarrow> Inl e
         | Inr (ax, ay) \<Rightarrow>
             (case osm_deg2num c2 c3 zm of
                Inl e \<Rightarrow> Inl e
              | Inr (bx, by) \<Rightarrow>
                  let tile_minx = min ax bx;
                      tile_maxx = max ax bx;
                      tile_miny = min ay by;
                      tile_maxy = max ay by
                  in Inr (tile_minx, tile_miny, tile_maxx, tile_maxy))))"

text \<open>
  \<^verbatim>\<open>num2deg\<close> over the real numbers: the north-west corner of a tile as
  \<^verbatim>\<open>(lat_deg, lon_deg)\<close>. The tile numbers are reals, since the function is also
  meant for \<^verbatim>\<open>xtile + 0.5\<close>.
\<close>

definition degrees :: "real \<Rightarrow> real" where
  "degrees r = r * 180 / pi"

definition num2deg :: "real \<Rightarrow> real \<Rightarrow> int \<Rightarrow> real \<times> real" where
  "num2deg xtile ytile zm =
     (let n = 2 powi zm;
          lon_deg = xtile / n * 360 - 180;
          lat_rad = arctan (sinh (pi * (1 - 2 * ytile / n)));
          lat_deg = degrees lat_rad
      in (lat_deg, lon_deg))"

text \<open>
  The longitude lines of the two functions in double arithmetic,
  \<^verbatim>\<open>xtile = int((lon_deg + 180.0) / 360.0 * n)\<close> of \<^verbatim>\<open>osm_deg2num\<close> and
  \<^verbatim>\<open>lon_deg = xtile / n * 360.0 - 180.0\<close> of \<^verbatim>\<open>num2deg\<close>, with one rounding
  for each operation. The longitude passed in is a double, the tile number is an integer
  (below \<open>2 ^ 53\<close>, so that its conversion to a float is exact), and
  \<^verbatim>\<open>n = 2.0 ** zoom\<close> is a power of two and exact. The latitude lines go through
  \<^verbatim>\<open>math.tan\<close>, \<^verbatim>\<open>math.log\<close>, \<^verbatim>\<open>math.sinh\<close> and \<^verbatim>\<open>math.atan\<close>, whose
  roundings the standard does not fix; they are modelled over the reals only.
\<close>

definition xtile_float64 :: "real \<Rightarrow> int \<Rightarrow> int" where
  "xtile_float64 lon_deg zm =
     (let n = 2 powi zm
      in trunc (float64 (float64 (float64 (lon_deg + 180) / 360) * n)))"

definition lon_deg_float64 :: "int \<Rightarrow> int \<Rightarrow> real" where
  "lon_deg_float64 xtile zm =
     (let n = 2 powi zm
      in float64 (float64 (float64 (of_int xtile / n) * 360) - 180))"

section \<open>Rounding to the nearest double\<close>

text \<open>
  Between two consecutive powers of two the doubles are evenly spaced, so that the
  rounding of a given number is a computation on integers.
\<close>

lemma floor_log2:
  assumes "2 powi k \<le> (r::real)" "r < 2 powi (k + 1)"
  shows "\<lfloor>log 2 r\<rfloor> = k"
proof -
  have "0 < (2::real) powi k" by simp
  with assms(1) have pos: "0 < r" by linarith
  have a: "(2::real) powi k = 2 powr (of_int k)" for k :: int
    by (simp add: powr_real_of_int')
  have "of_int k \<le> log 2 r" using assms(1) pos by (simp add: a le_log_iff)
  moreover have "log 2 r < of_int (k + 1)" using assms(2) pos by (simp add: a log_less_iff)
  ultimately show ?thesis by linarith
qed

lemma float64_normal:
  assumes "2 powi k \<le> \<bar>r\<bar>" "\<bar>r\<bar> < 2 powi (k + 1)"
  shows "float64 r = of_int (round_half_even (r / 2 powi (k - 52))) * 2 powi (k - 52)"
proof -
  have "0 < (2::real) powi k" by simp
  with assms(1) have "r \<noteq> 0" by linarith
  with floor_log2[OF assms] show ?thesis by (simp add: float64_def Let_def)
qed

lemma float64_0: "float64 0 = 0"
  by (simp add: float64_def)

lemma float64_half: "float64 (1/2) = 1/2"
  using float64_normal[of "-1" "1/2"] by (simp add: round_half_even_def power_int_minus)

lemma float64_1: "float64 1 = 1"
  using float64_normal[of 0 1] by (simp add: round_half_even_def power_int_minus)

lemma float64_180: "float64 180 = 180"
  using float64_normal[of 7 180] by (simp add: round_half_even_def)

lemma float64_360: "float64 360 = 360"
  using float64_normal[of 8 360] by (simp add: round_half_even_def power_int_minus)

section \<open>Histogram sampling\<close>

text \<open>
  For a positive sample and a positive bucket width, the index the method computes is
  the one bucket whose half-open range \<open>(k * interval, (k + 1) * interval]\<close> holds the
  sample.
\<close>

lemma bucket_index:
  assumes "0 < ival" "0 < v"
    and q_def: "q = trunc (v / ival)"
    and k_def: "k = (if of_int q * ival = v then q - 1 else q)"
  shows "0 \<le> k \<and> of_int k * ival < v \<and> v \<le> (of_int k + 1) * ival"
proof -
  have q: "q = \<lfloor>v / ival\<rfloor>" using assms by (simp add: trunc_def)
  have lo: "of_int q * ival \<le> v" using assms(1) q by (simp add: pos_le_divide_eq[symmetric])
  have hi: "v < (of_int q + 1) * ival" using assms(1) q
    by (simp add: pos_divide_less_eq[symmetric])
  have q0: "0 \<le> q" using assms(1,2) q by simp
  show ?thesis
  proof (cases "of_int q * ival = v")
    case True
    then have "q \<noteq> 0" using assms(2) by auto
    with q0 have "1 \<le> q" by simp
    moreover have "of_int (q - 1) * ival < v" using True assms(1) by (simp add: algebra_simps)
    ultimately show ?thesis using True by (simp add: k_def algebra_simps)
  next
    case False
    with lo hi q0 show ?thesis by (simp add: k_def)
  qed
qed

lemma bucket_unique:
  assumes "0 < (ival::real)"
    and "of_int i * ival < v" "v \<le> (of_int i + 1) * ival"
    and "of_int k * ival < v" "v \<le> (of_int k + 1) * ival"
  shows "i = (k::int)"
proof (rule ccontr)
  assume "i \<noteq> k"
  then consider "i + 1 \<le> k" | "k + 1 \<le> i" by linarith
  then show False
  proof cases
    case 1
    then have "(of_int i + 1) * ival \<le> of_int k * ival"
      using assms(1) by (metis mult_le_cancel_right_pos of_int_1 of_int_add of_int_le_iff)
    with assms show False by linarith
  next
    case 2
    then have "(of_int k + 1) * ival \<le> of_int i * ival"
      using assms(1) by (metis mult_le_cancel_right_pos of_int_1 of_int_add of_int_le_iff)
    with assms show False by linarith
  qed
qed

lemma list_inc_in_range:
  "0 \<le> k \<Longrightarrow> k < int (length xs) \<Longrightarrow> list_inc xs k = Inr (xs[nat k := xs ! nat k + 1])"
  by (simp add: list_inc_def)

lemma sample_pos_in_range:
  assumes shape: "hist_shape h" and ival: "0 < interval h"
    and v: "0 < v" "v \<le> max_value h"
  shows "\<exists>k. 0 \<le> k \<and> k < bucket_count h \<and>
           of_int k * interval h < v \<and> v \<le> (of_int k + 1) * interval h \<and>
           sample v h =
             (h\<lparr>h_count := h_count h + 1, h_sum := h_sum h + v,
                buckets := (buckets h)[nat k := buckets h ! nat k + 1]\<rparr>, None)"
proof -
  define q where "q = trunc (v / interval h)"
  define k where "k = (if of_int q * interval h = v then q - 1 else q)"
  from bucket_index[OF ival v(1) q_def k_def]
  have k: "0 \<le> k" "of_int k * interval h < v" "v \<le> (of_int k + 1) * interval h"
    by simp_all
  from k(2) v(2) shape have "of_int k * interval h < of_int (bucket_count h) * interval h"
    by (simp add: hist_shape_def)
  with ival have kb: "k < bucket_count h"
    by (simp add: mult_less_cancel_right_pos)
  with shape have "k < int (length (buckets h))" by (simp add: hist_shape_def)
  with k(1) have li: "list_inc (buckets h) k = Inr ((buckets h)[nat k := buckets h ! nat k + 1])"
    by (rule list_inc_in_range)
  have "sample v h =
     (h\<lparr>h_count := h_count h + 1, h_sum := h_sum h + v,
        buckets := (buckets h)[nat k := buckets h ! nat k + 1]\<rparr>, None)"
  proof (cases "of_int q * interval h = v")
    case True
    then have "k = q - 1" by (simp add: k_def)
    with li True v(2) ival show ?thesis
      by (simp add: sample_def Let_def q_def)
  next
    case False
    then have "k = q" by (simp add: k_def)
    with li False v(2) ival show ?thesis
      by (simp add: sample_def Let_def q_def)
  qed
  with k kb show ?thesis by blast
qed

lemma sample_above_max:
  "max_value h < v \<Longrightarrow> sample v h = (h\<lparr>h_count := h_count h + 1, h_sum := h_sum h + v\<rparr>, None)"
  by (simp add: sample_def Let_def)

text \<open>
  The two lemmas above are in exact arithmetic. In doubles the rule can also fail for a
  positive sample: with the width \<^verbatim>\<open>0.2\<close> (the double \<open>3602879701896397 / 2 ^ 54\<close>)
  and the sample \<^verbatim>\<open>3.4\<close> (the double \<open>7656119366529843 / 2 ^ 51\<close>) the quotient
  rounds up to 17, the product \<^verbatim>\<open>17 * 0.2\<close> rounds to the next double after
  \<^verbatim>\<open>3.4\<close>, the index stays 17, and the lower edge of bucket 17 is not below the
  sample.
\<close>

lemma float64_quotient:
  "float64 ((7656119366529843 / 2 ^ 51) / (3602879701896397 / 2 ^ 54)) = 17"
  using float64_normal[of 4 "(7656119366529843 / 2 ^ 51) / (3602879701896397 / 2 ^ 54)"]
  by (simp add: round_half_even_def power_int_minus)

lemma float64_product:
  "float64 (17 * (3602879701896397 / 2 ^ 54)) = 7656119366529844 / 2 ^ 51"
  using float64_normal[of 1 "17 * (3602879701896397 / 2 ^ 54)"]
  by (simp add: round_half_even_def power_int_minus)

lemma index_float64_above:
  "index_float64 (7656119366529843 / 2 ^ 51) (3602879701896397 / 2 ^ 54) = 17 \<and>
   \<not> 17 * (3602879701896397 / 2 ^ 54) < (7656119366529843 / 2 ^ 51 :: real)"
proof -
  have "index_float64 (7656119366529843 / 2 ^ 51) (3602879701896397 / 2 ^ 54) = 17"
    unfolding index_float64_def Let_def float64_quotient
    using float64_product by (simp add: trunc_def)
  then show ?thesis by simp
qed

text \<open>
  C2. In exact arithmetic the bucket rule \<open>i * interval < v \<le> (i + 1) * interval\<close>
  holds for a positive sample (\<open>sample_pos_in_range\<close>, \<open>sample_above_max\<close>), but not
  for the sample 0: the method finds \<open>index = 0\<close>, sees \<open>0 * interval = 0\<close>, steps down
  to \<open>-1\<close>, and \<^verbatim>\<open>buckets[-1]\<close> is the last bucket. On the query-time histogram of
  the module (width 1/5, 20 buckets) a sample of 0 seconds increments bucket 19, whose
  range is \<open>(19/5, 4]\<close>. Nothing is rounded on the way (\<open>0 / interval\<close> and
  \<open>0 * interval\<close> are 0 in doubles too), so this is what the code does.
\<close>

theorem sample_zero_last_bucket:
  "sample 0 (StatHistogram_init ''tile_querytime_seconds''
       ''histogram of tile query performance'' (1/5) 20) =
     (\<lparr>h_name = ''tile_querytime_seconds'', h_help = ''histogram of tile query performance'',
       h_sum = 0, interval = 1/5, buckets = replicate 19 0 @ [1], h_count = 1,
       bucket_count = 20, max_value = 4\<rparr>, None)"
  by (simp add: sample_def StatHistogram_init_def trunc_def list_inc_def Let_def numeral_eq_Suc)

text \<open>
  C4. For a histogram of positive bucket width and every \<open>k\<close> from 1 to
  \<open>bucket_count\<close>, sampling the boundary value \<open>k * interval\<close> returns normally and
  increments bucket \<open>k - 1\<close> and no other bucket.
\<close>

theorem sample_boundary:
  assumes "hist_shape h" "0 < interval h" "1 \<le> k" "k \<le> bucket_count h"
  shows "sample (of_int k * interval h) h =
     (h\<lparr>h_count := h_count h + 1, h_sum := h_sum h + of_int k * interval h,
        buckets := (buckets h)[nat (k - 1) := buckets h ! nat (k - 1) + 1]\<rparr>, None)"
proof -
  let ?v = "of_int k * interval h"
  have v: "0 < ?v" "?v \<le> max_value h"
    using assms by (simp_all add: hist_shape_def)
  from sample_pos_in_range[OF assms(1,2) v] obtain j where
    j: "of_int j * interval h < ?v" "?v \<le> (of_int j + 1) * interval h"
    and s: "sample ?v h = (h\<lparr>h_count := h_count h + 1, h_sum := h_sum h + ?v,
                buckets := (buckets h)[nat j := buckets h ! nat j + 1]\<rparr>, None)"
    by blast
  have "of_int (k - 1) * interval h < ?v" "?v \<le> (of_int (k - 1) + 1) * interval h"
    using assms(2) by (simp_all add: algebra_simps)
  from bucket_unique[OF assms(2) j this] have "j = k - 1" .
  with s show ?thesis by simp
qed

theorem sample_boundary_witness:
  "sample 16384 (StatHistogram_init ''tile_size'' ''histogram of tile size'' 8192 32) =
     (\<lparr>h_name = ''tile_size'', h_help = ''histogram of tile size'', h_sum = 16384,
       interval = 8192, buckets = 0 # 1 # replicate 30 0, h_count = 1, bucket_count = 32,
       max_value = 262144\<rparr>, None)"
  using sample_boundary [of "StatHistogram_init ''tile_size'' ''histogram of tile size'' 8192 32" 2]
  by (simp add: hist_shape_def StatHistogram_init_def numeral_eq_Suc)

text \<open>
  C5. Whatever the histogram and the sample, one call of \<^verbatim>\<open>sample\<close> leaves
  \<^verbatim>\<open>count\<close> one higher and \<^verbatim>\<open>sum\<close> higher by the sample, whether a bucket is
  incremented or not (and also when the bucket update raises).
\<close>

theorem sample_count_sum:
  "h_count (fst (sample v h)) = h_count h + 1 \<and> h_sum (fst (sample v h)) = h_sum h + v"
  by (simp add: sample_def Let_def split: sum.split)

lemma sample_no_raise:
  assumes "hist_ok h" "0 \<le> v"
  shows "snd (sample v h) = None"
proof -
  from assms(1) have shape: "hist_shape h" and ival: "0 < interval h" and bc: "0 < bucket_count h"
    by (simp_all add: hist_ok_def)
  consider "v = 0" | "0 < v" "v \<le> max_value h" | "max_value h < v"
    using assms(2) by linarith
  then show ?thesis
  proof cases
    case 1
    with shape ival bc show ?thesis
      by (simp add: sample_def hist_shape_def trunc_def list_inc_def Let_def)
  next
    case 2
    from sample_pos_in_range[OF shape ival 2] show ?thesis by auto
  next
    case 3
    then show ?thesis by (simp add: sample_above_max)
  qed
qed

section \<open>Serving a tile request\<close>

text \<open>
  What \<^verbatim>\<open>gentile_async\<close> can hand back: an exception that is not an HTTP exception,
  or a string. It never returns \<^verbatim>\<open>None\<close>, and it touches none of the three
  request counters.
\<close>

lemma sample_raises:
  "sample v h = (h', Some e) \<Longrightarrow> \<not> is_HTTPException e"
  by (auto simp: sample_def Let_def list_inc_def is_HTTPException_def split: sum.splits if_splits)

lemma gentile_async_result:
  "(\<exists>e s'. gentile_async c zm tx ty g s = (Inl e, s') \<and> \<not> is_HTTPException e) \<or>
   (\<exists>t s'. gentile_async c zm tx ty g s = (Inr (Some t), s'))"
  by (auto simp: gentile_async_def Let_def  split: option.splits prod.splits if_splits dest: sample_raises)
   (simp_all add: is_HTTPException_def)

lemma gentile_async_counters:
  "tile_queryfail (snd (gentile_async c zm tx ty g s)) = tile_queryfail s \<and>
   tile_served (snd (gentile_async c zm tx ty g s)) = tile_served s \<and>
   tile_exception (snd (gentile_async c zm tx ty g s)) = tile_exception s"
  by (simp add: gentile_async_def Let_def split: option.splits prod.splits)

lemma tile_handler_on_conn_queryfail:
  "tile_queryfail (snd (tile_handler_on_conn c req s)) = tile_queryfail s"
proof -
  let ?g = "gentile_async c (mi_zoom req) (mi_x req) (mi_y req) True s"
  from gentile_async_result[of c "mi_zoom req" "mi_x req" "mi_y req" True s]
  consider e s' where "?g = (Inl e, s')" | t s' where "?g = (Inr (Some t), s')" by blast
  then show ?thesis
  proof cases
    case 1
    with gentile_async_counters[of c "mi_zoom req" "mi_x req" "mi_y req" True s]
    show ?thesis by (simp add: tile_handler_on_conn_def)
  next
    case 2
    with gentile_async_counters[of c "mi_zoom req" "mi_x req" "mi_y req" True s]
    show ?thesis by (simp add: tile_handler_on_conn_def)
  qed
qed

lemma tile_handler_on_conn_result:
  "(\<exists>e s'. tile_handler_on_conn c req s = (Inl e, s') \<and> e \<noteq> HTTPServiceUnavailable) \<or>
   (\<exists>t s'. tile_handler_on_conn c req s =
      (Inr \<lparr>status = 200, r_text = t, content_type = ''application/json''\<rparr>, s'))"
proof -
  let ?g = "gentile_async c (mi_zoom req) (mi_x req) (mi_y req) True s"
  from gentile_async_result[of c "mi_zoom req" "mi_x req" "mi_y req" True s]
  consider e s' where "?g = (Inl e, s')" "\<not> is_HTTPException e"
    | t s' where "?g = (Inr (Some t), s')" by blast
  then show ?thesis
  proof cases
    case 1
    then show ?thesis by (auto simp: tile_handler_on_conn_def is_HTTPException_def)
  next
    case 2
    then show ?thesis by (simp add: tile_handler_on_conn_def)
  qed
qed

lemma get_tile_queryfail:
  "tile_queryfail (snd (get_tile pool req s)) = tile_queryfail s"
  using tile_handler_on_conn_queryfail[of pool req s]
  by (cases "tile_handler_on_conn pool req s")
     (auto simp: get_tile_def error_middleware_def tile_handler_pooling_def split: sum.splits)

lemma get_tile_not_503:
  "http_status (fst (get_tile pool req s)) \<noteq> 503"
proof -
  from tile_handler_on_conn_result[of pool req s]
  consider e s' where "tile_handler_on_conn pool req s = (Inl e, s')" "e \<noteq> HTTPServiceUnavailable"
    | t s' where "tile_handler_on_conn pool req s =
        (Inr \<lparr>status = 200, r_text = t, content_type = ''application/json''\<rparr>, s')" by blast
  then show ?thesis
  proof cases
    case 1
    then show ?thesis
      by (cases e) (simp_all add: get_tile_def error_middleware_def tile_handler_pooling_def
          is_HTTPException_def)
  next
    case 2
    then show ?thesis
      by (simp add: get_tile_def error_middleware_def tile_handler_pooling_def)
  qed
qed

lemma gentile_async_returns:
  assumes "\<not> timeout_set_fails c" "\<not> tile_query_fails c" "fetchall c = Some rows"
    and "hist_ok (tile_querytime s)" "hist_ok (tile_size s)" "0 \<le> query_seconds c"
  shows "fst (gentile_async c zm tx ty g s) = Inr (Some (encode rows))"
proof -
  have a: "snd (sample (query_seconds c) (tile_querytime s)) = None"
    using assms by (simp add: sample_no_raise)
  have b: "snd (sample (real (length (encode rows))) (tile_size s)) = None"
    using assms by (simp add: sample_no_raise)
  obtain h1 where h1: "sample (query_seconds c) (tile_querytime s) = (h1, None)"
    using a by (cases "sample (query_seconds c) (tile_querytime s)") simp
  obtain h2 where h2: "sample (real (length (encode rows))) (tile_size s) = (h2, None)"
    using b by (cases "sample (real (length (encode rows))) (tile_size s)") simp
  show ?thesis using assms(1-3) h1 h2
    by (simp add: gentile_async_def Let_def)
qed

lemma encode_Nil:
  \<open>encode [] = ''{"features": [], "type": "FeatureCollection"}''\<close>
  by (simp add: encode_def encode_str_def escape_char_def)

lemma get_tile_serves:
  assumes "\<not> acquire_fails c" "\<not> cursor_fails c" "int (mi_zoom req) = zoom_default"
    and "\<not> timeout_set_fails c" "\<not> tile_query_fails c" "fetchall c = Some rows"
    and "hist_ok (tile_querytime s)" "hist_ok (tile_size s)" "0 \<le> query_seconds c"
  shows "fst (get_tile c req s) =
     Inr \<lparr>status = 200, r_text = encode rows, content_type = ''application/json''\<rparr>"
proof -
  from gentile_async_returns[OF assms(4-9)]
  have "fst (gentile_async c (mi_zoom req) (mi_x req) (mi_y req) True s) = Inr (Some (encode rows))" .
  then obtain s' where "gentile_async c (mi_zoom req) (mi_x req) (mi_y req) True s = (Inr (Some (encode rows)), s')"
    by (cases "gentile_async c (mi_zoom req) (mi_x req) (mi_y req) True s") simp
  with assms(1-3) show ?thesis
    by (simp add: get_tile_def error_middleware_def tile_handler_pooling_def tile_handler_on_conn_def)
qed

text \<open>
  C1. A request for the supported zoom whose query fails in the database (one of the two
  \<^verbatim>\<open>execute\<close> calls or \<^verbatim>\<open>fetchall\<close> raises \<^verbatim>\<open>psycopg2.Error\<close>) is not
  answered with 503: \<^verbatim>\<open>gentile_async\<close> raises the error again,
  \<^verbatim>\<open>tile_handler_pooling\<close> counts it in \<^verbatim>\<open>tile_exception\<close>, and
  \<^verbatim>\<open>error_middleware\<close> replaces it by \<^verbatim>\<open>HTTPInternalServerError\<close>. On the
  freshly started server: status 500, \<^verbatim>\<open>tile_queryfail\<close> still 0,
  \<^verbatim>\<open>tile_exception\<close> 1.
\<close>

theorem query_failure_counterexample:
  "http_status (fst (get_tile
       \<lparr>acquire_fails = False, cursor_fails = False, timeout_set_fails = False,
        tile_query_fails = True, fetchall = None, query_seconds = 1/10\<rparr>
       \<lparr>mi_zoom = 16, mi_x = 100, mi_y = 200\<rparr> init_state)) = 500 \<and>
   c_value (tile_queryfail (snd (get_tile
       \<lparr>acquire_fails = False, cursor_fails = False, timeout_set_fails = False,
        tile_query_fails = True, fetchall = None, query_seconds = 1/10\<rparr>
       \<lparr>mi_zoom = 16, mi_x = 100, mi_y = 200\<rparr> init_state))) = 0 \<and>
   c_value (tile_queryfail init_state) = 0 \<and>
   c_value (tile_exception (snd (get_tile
       \<lparr>acquire_fails = False, cursor_fails = False, timeout_set_fails = False,
        tile_query_fails = True, fetchall = None, query_seconds = 1/10\<rparr>
       \<lparr>mi_zoom = 16, mi_x = 100, mi_y = 200\<rparr> init_state))) = 1 \<and>
   c_value (tile_exception init_state) = 0"
  by (simp add: get_tile_def error_middleware_def tile_handler_pooling_def
      tile_handler_on_conn_def gentile_async_def is_HTTPException_def zoom_default_def
      init_state_def inc_def StatCounter_init_def Let_def)

text \<open>
  C1, as the code has it by design: when the query of a request for the supported zoom
  fails in the database, the client receives a server-error status and no tile
  (\<^verbatim>\<open>tile_served\<close> is unchanged), and \<^verbatim>\<open>tile_exception\<close> goes up by exactly one,
  as it does for every exception that leaves \<^verbatim>\<open>tile_handler_on_conn\<close>.
\<close>

theorem query_failure_counts_exception:
  assumes "\<not> acquire_fails pool" "\<not> cursor_fails pool" "int (mi_zoom req) = zoom_default"
    and "timeout_set_fails pool \<or> tile_query_fails pool \<or> fetchall pool = None"
  shows "(http_status (fst (get_tile pool req s)) = 500 \<or>
          http_status (fst (get_tile pool req s)) = 503) \<and>
         tile_exception (snd (get_tile pool req s)) = inc (tile_exception s) \<and>
         tile_served (snd (get_tile pool req s)) = tile_served s"
  using assms
  by (auto simp: get_tile_def error_middleware_def tile_handler_pooling_def
      tile_handler_on_conn_def gentile_async_def is_HTTPException_def Let_def)

theorem query_failure_counts_exception_witness:
  "tile_exception (snd (get_tile
       \<lparr>acquire_fails = False, cursor_fails = False, timeout_set_fails = False,
        tile_query_fails = True, fetchall = None, query_seconds = 1/10\<rparr>
       \<lparr>mi_zoom = 16, mi_x = 100, mi_y = 200\<rparr> init_state)) = inc (tile_exception init_state) \<and>
   tile_served (snd (get_tile
       \<lparr>acquire_fails = False, cursor_fails = False, timeout_set_fails = False,
        tile_query_fails = True, fetchall = None, query_seconds = 1/10\<rparr>
       \<lparr>mi_zoom = 16, mi_x = 100, mi_y = 200\<rparr> init_state)) = tile_served init_state"
  using query_failure_counts_exception [of
      "\<lparr>acquire_fails = False, cursor_fails = False, timeout_set_fails = False,
        tile_query_fails = True, fetchall = None, query_seconds = 1/10\<rparr>"
      "\<lparr>mi_zoom = 16, mi_x = 100, mi_y = 200\<rparr>" init_state]
  by (simp add: zoom_default_def)

text \<open>
  C3. A request for an unsupported zoom does change a counter: \<^verbatim>\<open>HTTPNotFound\<close> is
  raised inside the \<^verbatim>\<open>try\<close> of \<^verbatim>\<open>tile_handler_pooling\<close>, whose
  \<^verbatim>\<open>except Exception\<close> increments \<^verbatim>\<open>tile_exception\<close>. And the zoom is checked
  only after a connection has been acquired: when the pool cannot provide one, the
  answer is 500, not 404.
\<close>

theorem unsupported_zoom_counterexample:
  "c_value (tile_exception (snd (get_tile
       \<lparr>acquire_fails = False, cursor_fails = False, timeout_set_fails = False,
        tile_query_fails = False, fetchall = Some [], query_seconds = 1/10\<rparr>
       \<lparr>mi_zoom = 15, mi_x = 0, mi_y = 0\<rparr> init_state))) = 1 \<and>
   c_value (tile_exception init_state) = 0 \<and>
   http_status (fst (get_tile
       \<lparr>acquire_fails = True, cursor_fails = False, timeout_set_fails = False,
        tile_query_fails = False, fetchall = Some [], query_seconds = 1/10\<rparr>
       \<lparr>mi_zoom = 15, mi_x = 0, mi_y = 0\<rparr> init_state)) = 500"
  by (simp add: get_tile_def error_middleware_def tile_handler_pooling_def
      tile_handler_on_conn_def is_HTTPException_def zoom_default_def init_state_def
      inc_def StatCounter_init_def)

text \<open>
  C3, amended: when the pool hands out a connection and the cursor opens, a request
  whose zoom is not the supported one is answered with 404, no statement is executed,
  and the state changes in exactly one place: \<^verbatim>\<open>tile_exception\<close> is one higher.
\<close>

theorem unsupported_zoom_not_found:
  assumes "\<not> acquire_fails pool" "\<not> cursor_fails pool" "int (mi_zoom req) \<noteq> zoom_default"
  shows "get_tile pool req s = (Inl HTTPNotFound, s\<lparr>tile_exception := inc (tile_exception s)\<rparr>) \<and>
         http_status (fst (get_tile pool req s)) = 404 \<and>
         executed (snd (get_tile pool req s)) = executed s"
  using assms
  by (simp add: get_tile_def error_middleware_def tile_handler_pooling_def
      tile_handler_on_conn_def is_HTTPException_def)

theorem unsupported_zoom_not_found_witness:
  "get_tile \<lparr>acquire_fails = False, cursor_fails = False, timeout_set_fails = False,
             tile_query_fails = False, fetchall = Some [], query_seconds = 1/10\<rparr>
       \<lparr>mi_zoom = 15, mi_x = 0, mi_y = 0\<rparr> init_state =
     (Inl HTTPNotFound, init_state\<lparr>tile_exception := inc (tile_exception init_state)\<rparr>)"
  using unsupported_zoom_not_found [of
      "\<lparr>acquire_fails = False, cursor_fails = False, timeout_set_fails = False,
        tile_query_fails = False, fetchall = Some [], query_seconds = 1/10\<rparr>"
      "\<lparr>mi_zoom = 15, mi_x = 0, mi_y = 0\<rparr>" init_state]
  by (simp add: zoom_default_def)

text \<open>
  C10. \<^verbatim>\<open>gentile_async\<close> never returns \<^verbatim>\<open>None\<close>; hence no request increments
  \<^verbatim>\<open>tile_queryfail\<close> or is answered with 503, the two effects of the
  \<^verbatim>\<open>tile_data == None\<close> branch. For every row sequence the database returns (with
  histograms that accept the samples) the coroutine returns the encoded document, and
  an empty result for the supported zoom is served as 200 with the empty
  \<^verbatim>\<open>FeatureCollection\<close>.
\<close>

theorem gentile_async_never_None:
  \<open>fst (gentile_async pool zm tx ty g s) \<noteq> Inr None \<and>
   tile_queryfail (snd (get_tile pool req s)) = tile_queryfail s \<and>
   http_status (fst (get_tile pool req s)) \<noteq> 503 \<and>
   (\<not> timeout_set_fails pool \<and> \<not> tile_query_fails pool \<and> fetchall pool = Some rows \<and>
    hist_ok (tile_querytime s) \<and> hist_ok (tile_size s) \<and> 0 \<le> query_seconds pool \<longrightarrow>
      fst (gentile_async pool zm tx ty g s) = Inr (Some (encode rows))) \<and>
   (\<not> acquire_fails pool \<and> \<not> cursor_fails pool \<and> int (mi_zoom req) = zoom_default \<and>
    \<not> timeout_set_fails pool \<and> \<not> tile_query_fails pool \<and> fetchall pool = Some [] \<and>
    hist_ok (tile_querytime s) \<and> hist_ok (tile_size s) \<and> 0 \<le> query_seconds pool \<longrightarrow>
      fst (get_tile pool req s) =
        Inr \<lparr>status = 200, r_text = ''{"features": [], "type": "FeatureCollection"}'',
             content_type = ''application/json''\<rparr>)\<close>
proof -
  have 1: "fst (gentile_async pool zm tx ty g s) \<noteq> Inr None"
    using gentile_async_result[of pool zm tx ty g s] by auto
  show ?thesis
    using 1 get_tile_queryfail[of pool req s] get_tile_not_503[of pool req s]
      gentile_async_returns[of pool rows s zm tx ty g]
      get_tile_serves[of pool req "[]" s] encode_Nil
    by simp
qed

theorem gentile_async_never_None_witness:
  \<open>fst (get_tile
       \<lparr>acquire_fails = False, cursor_fails = False, timeout_set_fails = False,
        tile_query_fails = False, fetchall = Some [], query_seconds = 1/10\<rparr>
       \<lparr>mi_zoom = 16, mi_x = 100, mi_y = 200\<rparr> init_state) =
     Inr \<lparr>status = 200, r_text = ''{"features": [], "type": "FeatureCollection"}'',
          content_type = ''application/json''\<rparr>\<close>
  using gentile_async_never_None [of
      "\<lparr>acquire_fails = False, cursor_fails = False, timeout_set_fails = False,
        tile_query_fails = False, fetchall = Some [], query_seconds = 1/10\<rparr>"
      16 100 200 True init_state "\<lparr>mi_zoom = 16, mi_x = 100, mi_y = 200\<rparr>" "[]"]
  by (simp add: zoom_default_def init_state_def hist_ok_def hist_shape_def StatHistogram_init_def)

section \<open>Encoding the rows\<close>

text \<open>
  Two lists of items with the same items and distinct keys are sorted by key into the
  same list, so the two dictionaries are written alike.
\<close>

lemma sort_key_fields:
  assumes "distinct (map fst r)" "mset r = mset r'"
  shows "sort_key fst r = sort_key fst r'"
proof (rule sort_key_inj_key_eq)
  show "mset r = mset (sort_key fst r')" using assms(2) by simp
  show "inj_on fst (set r)" using assms(1) by (simp add: distinct_map)
  show "sorted (map fst (sort_key fst r'))" by simp
qed

lemma dumps_asdict_fields:
  assumes "distinct (map fst r)" "mset r = mset r'"
  shows "dumps (asdict r) = dumps (asdict r')"
  using sort_key_fields[OF assms] by (simp add: asdict_def)

lemma map_dumps_fields:
  assumes "list_all2 (\<lambda>r r'. distinct (map fst r) \<and> mset r = mset r') rows rows'"
  shows "map (dumps \<circ> asdict) rows = map (dumps \<circ> asdict) rows'"
  using assms by (induction rule: list_all2_induct) (simp_all add: dumps_asdict_fields)

text \<open>
  C6. The encoded document is a function of the row sequence alone (the encoder reads
  nothing else), so encoding the same rows twice gives the same text; and when two row
  sequences agree row by row up to the order of the fields of each row (the field names
  of a row being distinct), the two documents are the same text, because
  \<^verbatim>\<open>sort_keys=True\<close> writes the items of each row in key order.
\<close>

theorem encode_field_order:
  assumes "list_all2 (\<lambda>r r'. distinct (map fst r) \<and> mset r = mset r') rows rows'"
  shows "encode rows = encode rows'"
  using map_dumps_fields[OF assms] by (simp add: encode_def)

theorem encode_field_order_witness:
  "encode [[(''id'', JInt 1), (''name'', JStr ''A'')], [(''id'', JInt 2), (''name'', JStr ''B'')]] =
   encode [[(''name'', JStr ''A''), (''id'', JInt 1)], [(''id'', JInt 2), (''name'', JStr ''B'')]]"
  using encode_field_order [of
      "[[(''id'', JInt 1), (''name'', JStr ''A'')], [(''id'', JInt 2), (''name'', JStr ''B'')]]"
      "[[(''name'', JStr ''A''), (''id'', JInt 1)], [(''id'', JInt 2), (''name'', JStr ''B'')]]"]
  by simp

text \<open>
  C9. Encoding the empty row sequence returns exactly the text
  \<^verbatim>\<open>{"features": [], "type": "FeatureCollection"}\<close>.
\<close>

theorem encode_empty:
  \<open>encode [] = ''{"features": [], "type": "FeatureCollection"}''\<close>
  by (simp add: encode_def encode_str_def escape_char_def)

text \<open>
  The two rows of the specification's scenario: in each object \<^verbatim>\<open>id\<close> comes before
  \<^verbatim>\<open>name\<close>, whatever the order of the columns, and the rows keep their order.
\<close>

lemma encode_two_rows:
  \<open>encode [[(''name'', JStr ''A''), (''id'', JInt 1)], [(''id'', JInt 2), (''name'', JStr ''B'')]] =
    ''{"features": [{"id": 1, "name": "A"}, {"id": 2, "name": "B"}], "type": "FeatureCollection"}''\<close>
  by code_simp

section \<open>Tile bounding boxes\<close>

text \<open>
  Swapping the two corners swaps the arguments of \<^verbatim>\<open>min\<close> and \<^verbatim>\<open>max\<close>, and
  nothing else. For latitudes between the poles the only exception the projection can
  raise is the division by a zero cosine at a pole itself.
\<close>

lemma tile_bbox_from_coords_Inr_iff:
  "tile_bbox_from_coords zm (latA, lonA, latB, lonB) = Inr r \<longleftrightarrow>
   tile_bbox_from_coords zm (latB, lonB, latA, lonA) = Inr r"
  by (auto simp: tile_bbox_from_coords_def Let_def min.commute max.commute split: sum.splits prod.splits)

lemma log_argument_positive:
  assumes "\<bar>x\<bar> < pi / 2"
  shows "0 < tan x + 1 / cos x"
proof -
  from assms have c: "0 < cos x" by (simp add: cos_gt_zero_pi abs_less_iff)
  have "sin x \<noteq> -1"
  proof
    assume "sin x = -1"
    with sin_cos_squared_add[of x] have "cos x = 0" by simp
    with c show False by simp
  qed
  with sin_ge_minus_one[of x] have "0 < sin x + 1" by linarith
  with c have "0 < (sin x + 1) / cos x" by simp
  moreover have "tan x + 1 / cos x = (sin x + 1) / cos x"
    by (simp add: tan_def add_divide_distrib)
  ultimately show ?thesis by simp
qed

lemma osm_deg2num_geographic:
  assumes "\<bar>lat\<bar> \<le> 90"
  shows "osm_deg2num lat lon zm = Inl ZeroDivisionError \<or> (\<exists>p. osm_deg2num lat lon zm = Inr p)"
proof (cases "cos (radians lat) = 0")
  case True
  then show ?thesis by (simp add: osm_deg2num_def Let_def)
next
  case False
  have "\<bar>radians lat\<bar> \<le> pi / 2" using assms by (simp add: radians_def abs_mult abs_le_iff) 
  moreover have "radians lat \<noteq> pi / 2"
  proof
    assume "radians lat = pi / 2"
    then have "cos (radians lat) = 0" by (simp only: cos_pi_half)
    with False show False by simp
  qed
  moreover have "radians lat \<noteq> - (pi / 2)"
  proof
    assume "radians lat = - (pi / 2)"
    then have "cos (radians lat) = 0" by (simp only: cos_minus cos_pi_half)
    with False show False by simp
  qed
  ultimately have "\<bar>radians lat\<bar> < pi / 2" by linarith
  from log_argument_positive[OF this] False show ?thesis
    by (simp add: osm_deg2num_def Let_def)
qed

lemma tile_bbox_from_coords_geographic:
  assumes "\<bar>latA\<bar> \<le> 90" "\<bar>latB\<bar> \<le> 90"
  shows "tile_bbox_from_coords zm (latA, lonA, latB, lonB) =
         tile_bbox_from_coords zm (latB, lonB, latA, lonA)"
  using osm_deg2num_geographic[OF assms(1), of lonA zm] osm_deg2num_geographic[OF assms(2), of lonB zm]
  by (auto simp: tile_bbox_from_coords_def Let_def min.commute max.commute)

text \<open>
  C8. For every zoom and every two corners, \<^verbatim>\<open>tile_bbox_from_coords\<close> returns an
  envelope for the corners in one order exactly when it returns the same envelope for
  them in the other order (so it raises for one order exactly when it raises for the
  other); and for geographic corners, with latitudes from -90 to 90, the two calls are
  equal outright.
\<close>

theorem tile_bbox_from_coords_swap:
  "(tile_bbox_from_coords zm (latA, lonA, latB, lonB) = Inr r \<longleftrightarrow>
    tile_bbox_from_coords zm (latB, lonB, latA, lonA) = Inr r) \<and>
   (\<bar>latA\<bar> \<le> 90 \<and> \<bar>latB\<bar> \<le> 90 \<longrightarrow>
    tile_bbox_from_coords zm (latA, lonA, latB, lonB) =
    tile_bbox_from_coords zm (latB, lonB, latA, lonA))"
  using tile_bbox_from_coords_Inr_iff[of zm latA lonA latB lonB r]
    tile_bbox_from_coords_geographic[of latA latB zm lonA lonB]
  by simp

theorem tile_bbox_from_coords_swap_witness:
  "tile_bbox_from_coords 2 (0, - 90, 0, 0) = tile_bbox_from_coords 2 (0, 0, 0, - 90) \<and>
   tile_bbox_from_coords 2 (0, 0, 0, - 90) = Inr (1, 2, 2, 2)"
  using tile_bbox_from_coords_swap [of 2 0 "- 90" 0 0 "(1, 2, 2, 2)"]
  by (simp add: tile_bbox_from_coords_def osm_deg2num_def radians_def trunc_def Let_def)

section \<open>From a point to its tile and back\<close>

text \<open>
  In exact arithmetic \<^verbatim>\<open>num2deg\<close> inverts the projection of \<^verbatim>\<open>osm_deg2num\<close>, and
  both coordinates of a corner are monotone in the tile numbers; \<^verbatim>\<open>int\<close> rounds a
  non-negative number down. So the tile of a point has its north-west corner
  \<^verbatim>\<open>num2deg(x, y, z)\<close> and its south-east corner \<^verbatim>\<open>num2deg(x + 1, y + 1, z)\<close>
  around the point, as long as the numbers truncated are not negative: the longitude
  from -180 on, the latitude up to the edge of the projection, where
  \<open>tan (radians lat) = sinh pi\<close> (a little above 85 degrees).
\<close>

lemma trunc_bounds:
  assumes "0 \<le> r"
  shows "of_int (trunc r) \<le> r \<and> r < of_int (trunc r) + 1"
  using assms by (simp add: trunc_def)

lemma lon_bounds:
  assumes "- 180 \<le> lon" and "osm_deg2num lat lon zm = Inr (xt, yt)"
  shows "snd (num2deg (of_int xt) (of_int yt) zm) \<le> lon \<and>
         lon < snd (num2deg (of_int xt + 1) (of_int yt + 1) zm)"
proof -
  define n :: real where "n = 2 powi zm"
  have n: "0 < n" by (simp add: n_def)
  define X where "X = (lon + 180) / 360 * n"
  have X0: "0 \<le> X" using assms(1) n by (simp add: X_def)
  have xt: "xt = trunc X"
    using assms(2) by (auto simp: osm_deg2num_def Let_def X_def n_def split: if_splits)
  from trunc_bounds[OF X0] xt have b: "of_int xt \<le> X" "X < of_int xt + 1" by simp_all
  have lon: "lon = X / n * 360 - 180" using n by (simp add: X_def field_simps)
  have "of_int xt / n * 360 - 180 \<le> lon"
    using b(1) n unfolding lon by (simp add: divide_right_mono)
  moreover have "lon < (of_int xt + 1) / n * 360 - 180"
    using b(2) n unfolding lon by (simp add: divide_strict_right_mono)
  ultimately show ?thesis by (simp add: num2deg_def Let_def n_def)
qed

lemma radians_bound:
  assumes "\<bar>lat\<bar> < 90"
  shows "\<bar>radians lat\<bar> < pi / 2"
proof -
  from assms have a: "lat < 90" "- lat < 90" by (simp_all add: abs_less_iff)
  have "lat * pi < 90 * pi" "(- lat) * pi < 90 * pi"
    using a by (simp_all only: mult_strict_right_mono[OF _ pi_gt_zero])
  then show ?thesis by (simp add: radians_def abs_less_iff)
qed

lemma sinh_ln_tan:
  assumes "\<bar>x\<bar> < pi / 2"
  shows "sinh (ln (tan x + 1 / cos x)) = tan x"
proof -
  from assms have c: "0 < cos x" by (simp add: cos_gt_zero_pi abs_less_iff)
  define a where "a = tan x + 1 / cos x"
  have a: "0 < a" unfolding a_def by (rule log_argument_positive[OF assms])
  have sc: "(sin x)\<^sup>2 + (cos x)\<^sup>2 = 1" by simp
  have "a * (1 / cos x - tan x) = (1 - (sin x)\<^sup>2) / (cos x)\<^sup>2"
    using c by (simp add: a_def tan_def field_simps power2_eq_square)
  also have "\<dots> = 1" using sc c by (simp add: algebra_simps)
  finally have inv: "inverse a = 1 / cos x - tan x"
    using a by (simp add: field_simps)
  have "sinh (ln a) = (a - inverse a) / 2"
    using a by (simp add: sinh_def exp_minus)
  also have "\<dots> = tan x" unfolding inv by (simp add: a_def)
  finally show ?thesis by (simp add: a_def)
qed

lemma num2deg_lat_antimono:
  assumes "y1 < y2"
  shows "fst (num2deg x2 y2 zm) < fst (num2deg x1 y1 zm)"
proof -
  have n: "0 < (2::real) powi zm" by simp
  have "y2 / 2 powi zm > y1 / 2 powi zm" using assms n by (simp add: divide_strict_right_mono)
  then have "pi * (1 - 2 * y2 / 2 powi zm) < pi * (1 - 2 * y1 / 2 powi zm)" by simp
  then have "arctan (sinh (pi * (1 - 2 * y2 / 2 powi zm))) < arctan (sinh (pi * (1 - 2 * y1 / 2 powi zm)))"
    by (simp add: arctan_less_iff)
  then show ?thesis by (simp add: num2deg_def Let_def degrees_def divide_strict_right_mono)
qed

lemma num2deg_lat_inverse:
  assumes "\<bar>lat\<bar> < 90"
  shows "fst (num2deg x ((1 - ln (tan (radians lat) + 1 / cos (radians lat)) / pi) / 2 * 2 powi zm) zm) = lat"
proof -
  have r: "\<bar>radians lat\<bar> < pi / 2" by (rule radians_bound[OF assms])
  have n: "(2::real) powi zm \<noteq> 0" by simp
  define l where "l = ln (tan (radians lat) + 1 / cos (radians lat))"
  have "pi * (1 - 2 * ((1 - l / pi) / 2 * 2 powi zm) / 2 powi zm) = l"
    using n by (simp add: field_simps)
  then have "fst (num2deg x ((1 - l / pi) / 2 * 2 powi zm) zm) = degrees (arctan (sinh l))"
    by (simp add: num2deg_def Let_def)
  also have "\<dots> = degrees (arctan (tan (radians lat)))"
    unfolding l_def by (simp only: sinh_ln_tan[OF r])
  also have "\<dots> = degrees (radians lat)"
    using r by (simp add: arctan_tan abs_less_iff)
  also have "\<dots> = lat" by (simp add: degrees_def radians_def)
  finally show ?thesis by (simp add: l_def)
qed

lemma lat_bounds:
  assumes lat: "\<bar>lat\<bar> < 90"
    and lim: "tan (radians lat) \<le> sinh pi"
    and res: "osm_deg2num lat lon zm = Inr (xt, yt)"
  shows "fst (num2deg (of_int xt + 1) (of_int yt + 1) zm) < lat \<and>
         lat \<le> fst (num2deg (of_int xt) (of_int yt) zm)"
proof -
  have r: "\<bar>radians lat\<bar> < pi / 2" by (rule radians_bound[OF lat])
  define l where "l = ln (tan (radians lat) + 1 / cos (radians lat))"
  define Y where "Y = (1 - l / pi) / 2 * 2 powi zm"
  have "sinh l \<le> sinh pi" unfolding l_def using lim by (simp only: sinh_ln_tan[OF r])
  then have "l \<le> pi" by simp
  then have "0 \<le> 1 - l / pi" by simp
  then have Y0: "0 \<le> Y" by (simp add: Y_def)
  have yt: "yt = trunc Y"
    using res by (auto simp: osm_deg2num_def Let_def Y_def l_def split: if_splits)
  from trunc_bounds[OF Y0] yt have b: "of_int yt \<le> Y" "Y < of_int yt + 1" by simp_all
  have inv: "fst (num2deg x Y zm) = lat" for x
    unfolding Y_def l_def by (rule num2deg_lat_inverse[OF lat])
  have "fst (num2deg (of_int xt + 1) (of_int yt + 1) zm) < fst (num2deg 0 Y zm)"
    by (rule num2deg_lat_antimono[OF b(2)])
  moreover have "fst (num2deg 0 Y zm) \<le> fst (num2deg (of_int xt) (of_int yt) zm)"
  proof (cases "of_int yt = Y")
    case True
    then show ?thesis by (simp add: num2deg_def Let_def)
  next
    case False
    with b(1) have "of_int yt < Y" by simp
    from num2deg_lat_antimono[OF this] show ?thesis by (simp add: less_imp_le)
  qed
  ultimately show ?thesis by (simp add: inv)
qed

text \<open>
  Latitudes below 85 degrees are inside the projection: \<open>tan (17 * pi / 36)\<close> is at
  most \<open>36 / pi\<close>, which is below \<open>sinh pi\<close> once \<open>pi\<close> is known to be at least 3.14
  (from Machin's formula) and \<open>exp 3.14\<close> at least 23 (by squaring a quadratic bound six
  times).
\<close>

lemma arctan_le_arg:
  assumes "0 \<le> (x::real)"
  shows "arctan x \<le> x"
proof -
  have "(\<lambda>t. t - arctan t) 0 \<le> (\<lambda>t. t - arctan t) x"
  proof (rule DERIV_nonneg_imp_nondecreasing[OF assms])
    fix t :: real
    have "((\<lambda>t. t - arctan t) has_real_derivative (1 - inverse (1 + t\<^sup>2))) (at t)"
      by (auto intro!: derivative_eq_intros)
    moreover have "inverse (1 + t\<^sup>2) \<le> 1"
      by (simp add: inverse_le_1_iff)
    ultimately show "\<exists>y. ((\<lambda>t. t - arctan t) has_real_derivative y) (at t) \<and> 0 \<le> y"
      by (intro exI[of _ "1 - inverse (1 + t\<^sup>2)"]) simp
  qed
  then show ?thesis by simp
qed

lemma arctan_ge_cubic:
  assumes "0 \<le> (x::real)"
  shows "x - x ^ 3 / 3 \<le> arctan x"
proof -
  have "(\<lambda>t. arctan t - t + t ^ 3 / 3) 0 \<le> (\<lambda>t. arctan t - t + t ^ 3 / 3) x"
  proof (rule DERIV_nonneg_imp_nondecreasing[OF assms])
    fix t :: real
    have d: "((\<lambda>t. arctan t - t + t ^ 3 / 3) has_real_derivative (inverse (1 + t\<^sup>2) - 1 + t\<^sup>2)) (at t)"
      by (auto intro!: derivative_eq_intros simp: power2_eq_square)
    have p: "0 < 1 + t\<^sup>2" by (simp add: add_pos_nonneg)
    have "inverse (1 + t\<^sup>2) - 1 + t\<^sup>2 = t ^ 4 / (1 + t\<^sup>2)"
      using p by (simp add: field_simps power2_eq_square power4_eq_xxxx)
    also have "0 \<le> \<dots>" using p by simp
    finally have "0 \<le> inverse (1 + t\<^sup>2) - 1 + t\<^sup>2" .
    with d show "\<exists>y. ((\<lambda>t. arctan t - t + t ^ 3 / 3) has_real_derivative y) (at t) \<and> 0 \<le> y"
      by blast
  qed
  then show ?thesis by simp
qed

lemma pi_lower: "157 / 50 \<le> pi"
proof -
  have a: "74 / 375 \<le> arctan (1 / 5)"
    using arctan_ge_cubic[of "1 / 5"] by (simp add: power3_eq_cube)
  have b: "arctan (1 / 239) \<le> 1 / 239" by (rule arctan_le_arg) simp
  have "pi = 16 * arctan (1 / 5) - 4 * arctan (1 / 239)" using machin by simp
  with a b show ?thesis by linarith
qed

lemma exp_double_lower:
  assumes "a \<le> exp (x::real)" and "0 \<le> a" and "b \<le> a * a"
  shows "b \<le> exp (2 * x)"
proof -
  have "a * a \<le> exp x * exp x" using assms(1,2) by (intro mult_mono) simp_all
  also have "\<dots> = exp (2 * x)" by (simp add: exp_double power2_eq_square)
  finally show ?thesis using assms(3) by linarith
qed

lemma exp_lower: "23 \<le> exp (157 / 50 :: real)"
proof -
  have e0: "105026 / 100000 \<le> exp (157 / 3200 :: real)"
    using exp_lower_Taylor_quadratic[of "157 / 3200 :: real"] by (simp add: power2_eq_square)
  have e1: "110304 / 100000 \<le> exp (157 / 1600 :: real)"
    using exp_double_lower[OF e0, of "110304 / 100000"] by simp
  have e2: "121669 / 100000 \<le> exp (157 / 800 :: real)"
    using exp_double_lower[OF e1, of "121669 / 100000"] by simp
  have e3: "148033 / 100000 \<le> exp (157 / 400 :: real)"
    using exp_double_lower[OF e2, of "148033 / 100000"] by simp
  have e4: "219137 / 100000 \<le> exp (157 / 200 :: real)"
    using exp_double_lower[OF e3, of "219137 / 100000"] by simp
  have e5: "48021 / 10000 \<le> exp (157 / 100 :: real)"
    using exp_double_lower[OF e4, of "48021 / 10000"] by simp
  show ?thesis
    using exp_double_lower[OF e5, of 23] by simp
qed

lemma sinh_pi_lower: "36 / pi < sinh pi"
proof -
  have "36 / pi \<le> 36 / (157 / 50)"
    using pi_lower by (intro divide_left_mono) simp_all
  also have "\<dots> < (23 - 1 / 23) / 2" by simp
  also have "\<dots> \<le> (exp (157 / 50) - inverse (exp (157 / 50))) / 2"
  proof -
    have "inverse (exp (157 / 50 :: real)) \<le> inverse 23"
      using exp_lower by (intro le_imp_inverse_le) simp_all
    with exp_lower show ?thesis by simp
  qed
  also have "\<dots> = sinh (157 / 50)" by (simp add: sinh_def exp_minus)
  also have "\<dots> \<le> sinh pi" using pi_lower by simp
  finally show ?thesis .
qed

lemma tan_below_85:
  assumes "\<bar>lat\<bar> < 85"
  shows "tan (radians lat) \<le> sinh pi"
proof -
  have r: "radians lat < 17 * pi / 36"
  proof -
    from assms have "lat < 85" by simp
    then have "lat * pi < 85 * pi" by (simp only: mult_strict_right_mono[OF _ pi_gt_zero])
    then show ?thesis by (simp add: radians_def)
  qed
  have l: "- (pi / 2) < radians lat"
    using radians_bound[of lat] assms by (simp add: abs_less_iff)
  have "tan (radians lat) < tan (17 * pi / 36)"
    using r l by (intro tan_monotone) simp_all
  also have "17 * pi / 36 = pi / 2 - pi / 36" by simp
  also have "tan (pi / 2 - pi / 36) = inverse (tan (pi / 36))" by (rule tan_cot)
  also have "\<dots> \<le> inverse (pi / 36)"
  proof (rule le_imp_inverse_le)
    have "0 \<le> tan (pi / 36)" by (intro less_imp_le tan_gt_zero) simp_all
    from arctan_le_arg[OF this] show "pi / 36 \<le> tan (pi / 36)"
      by (simp add: arctan_tan)
    show "0 < pi / 36" by simp
  qed
  also have "\<dots> = 36 / pi" by (simp add: field_simps)
  also have "\<dots> < sinh pi" by (rule sinh_pi_lower)
  finally show ?thesis by simp
qed

text \<open>
  The round trip in exact arithmetic: for every zoom, every latitude with
  \<open>\<bar>lat\<bar> < 85\<close> and every longitude from -180 on, \<^verbatim>\<open>osm_deg2num\<close> returns a
  tile, the longitude lies between the longitudes of the two corners and the latitude
  between their latitudes (west and north edge included, east and south edge excluded).
\<close>

lemma num2deg_bounds_exact:
  assumes "\<bar>lat\<bar> < 85" and "- 180 \<le> lon"
  shows "\<exists>xt yt. osm_deg2num lat lon zm = Inr (xt, yt) \<and>
           snd (num2deg (of_int xt) (of_int yt) zm) \<le> lon \<and>
           lon < snd (num2deg (of_int xt + 1) (of_int yt + 1) zm) \<and>
           fst (num2deg (of_int xt + 1) (of_int yt + 1) zm) < lat \<and>
           lat \<le> fst (num2deg (of_int xt) (of_int yt) zm)"
proof -
  from assms(1) have lat: "\<bar>lat\<bar> < 90" by simp
  have r: "\<bar>radians lat\<bar> < pi / 2" by (rule radians_bound[OF lat])
  then have "0 < cos (radians lat)" by (simp add: cos_gt_zero_pi abs_less_iff)
  with log_argument_positive[OF r] obtain xt yt where res: "osm_deg2num lat lon zm = Inr (xt, yt)"
    by (simp add: osm_deg2num_def Let_def)
  from lon_bounds[OF assms(2) res] lat_bounds[OF lat tan_below_85[OF assms(1)] res] res
  show ?thesis by blast
qed

text \<open>
  The code computes in doubles, and there the tile can miss the point. Take the latitude
  0, the zoom 1 and the longitude \<^verbatim>\<open>-1e-20\<close>, which is the double
  \<open>- (6646139978924579 / 2 ^ 119)\<close>. In exact arithmetic the point is in tile
  \<open>(0, 1)\<close>, whose corners have the longitudes -180 and 0.
\<close>

lemma osm_deg2num_edge_exact:
  "osm_deg2num 0 (- (6646139978924579 / 2 ^ 119)) 1 = Inr (0, 1) \<and>
   snd (num2deg 0 1 1) = - 180 \<and> snd (num2deg (0 + 1) (1 + 1) 1) = 0"
  by (simp add: osm_deg2num_def num2deg_def radians_def trunc_def Let_def)

lemma float64_edge_lon:
  "float64 (- (6646139978924579 / 2 ^ 119)) = - (6646139978924579 / 2 ^ 119)"
  using float64_normal[of "-67" "- (6646139978924579 / 2 ^ 119)"]
  by (simp add: round_half_even_def power_int_minus)

lemma float64_edge_sum: "float64 (- (6646139978924579 / 2 ^ 119) + 180) = 180"
  using float64_normal[of 7 "- (6646139978924579 / 2 ^ 119) + 180"]
  by (simp add: round_half_even_def power_int_minus)

lemma xtile_float64_absorbed:
  assumes "float64 (lon + 180) = 180"
  shows "xtile_float64 lon 1 = 1"
  using assms by (simp add: xtile_float64_def float64_half float64_1 trunc_def)

text \<open>
  C7. The corners \<^verbatim>\<open>num2deg(x, y, z)\<close> and \<^verbatim>\<open>num2deg(x + 1, y + 1, z)\<close> of the tile
  \<^verbatim>\<open>(x, y) = osm_deg2num(lat, lon, z)\<close> are to bound the point. The formulas do that
  (\<open>num2deg_bounds_exact\<close>); the code, which evaluates them in doubles, does not at the
  point above. The longitude \<^verbatim>\<open>-1e-20\<close> is a double; \<^verbatim>\<open>lon_deg + 180.0\<close> rounds to
  \<^verbatim>\<open>180.0\<close>, so \<^verbatim>\<open>xtile\<close> is 1 at zoom 1; the corners of tile 1 have the
  longitudes \<^verbatim>\<open>0.0\<close> and \<^verbatim>\<open>180.0\<close>; and the longitude of the point is below both.
\<close>

theorem osm_deg2num_edge_rounding:
  "float64 (- (6646139978924579 / 2 ^ 119)) = - (6646139978924579 / 2 ^ 119) \<and>
   xtile_float64 (- (6646139978924579 / 2 ^ 119)) 1 = 1 \<and>
   lon_deg_float64 1 1 = 0 \<and>
   lon_deg_float64 (1 + 1) 1 = 180 \<and>
   - (6646139978924579 / 2 ^ 119) < lon_deg_float64 1 1"
proof -
  have x: "xtile_float64 (- (6646139978924579 / 2 ^ 119)) 1 = 1"
    by (rule xtile_float64_absorbed[OF float64_edge_sum])
  have w: "lon_deg_float64 1 1 = 0"
    by (simp add: lon_deg_float64_def float64_half float64_180 float64_0)
  have e: "lon_deg_float64 (1 + 1) 1 = 180"
    by (simp add: lon_deg_float64_def float64_1 float64_360 float64_180)
  show ?thesis using x w e float64_edge_lon by simp
qed

end
